theory Spec2Isabelle
  imports Complex_Main "HOL-Library.Word"
begin

section \<open>The WebSocket client of go-hyperliquid\<close>

text \<open>
  A shallow embedding of \<^verbatim>\<open>hyperliquid/ws.go\<close> (type \<^verbatim>\<open>WebSocketAPI\<close>) and of the
  \<^verbatim>\<open>Subscription\<close> struct of \<^verbatim>\<open>hyperliquid/ws_types.go\<close>.

  The client is concurrent: callers, the reader goroutine and \<^verbatim>\<open>Disconnect\<close> share one
  struct behind two locks. Each critical section of the source is one function on an
  explicit state here. What the outside world decides (whether the dial, a write or the
  close succeeds, in which order Go's \<^verbatim>\<open>range\<close> walks a map, whether the 15 second timer
  has fired) is an argument of the function that meets it.
\<close>

subsection \<open>Values\<close>

text \<open>
  A decoded JSON value, as \<^verbatim>\<open>encoding/json\<close> stores it in an \<^verbatim>\<open>interface{}\<close>: \<^verbatim>\<open>nil\<close>,
  \<^verbatim>\<open>bool\<close>, \<^verbatim>\<open>float64\<close>, \<^verbatim>\<open>string\<close>, \<^verbatim>\<open>[]interface{}\<close> and
  \<^verbatim>\<open>map[string]interface{}\<close>. A number is a rational here (rounding to \<^verbatim>\<open>float64\<close> is
  not modelled); an object lists the entries of the decoded map, looked up with
  \<^const>\<open>map_of\<close>.
\<close>

datatype json =
    JNull
  | JBool bool
  | JNum rat
  | JStr string
  | JArr "json list"
  | JObj "(string \<times> json) list"

text \<open>\<^verbatim>\<open>m[k]\<close> on a value that may or may not be a map; a missing key reads as \<^verbatim>\<open>nil\<close>.\<close>

fun index_map :: "(string \<times> json) list \<Rightarrow> string \<Rightarrow> json" where
  "index_map kvs k = (case map_of kvs k of None \<Rightarrow> JNull | Some v \<Rightarrow> v)"

text \<open>The type assertions \<^verbatim>\<open>v.(string)\<close>, \<^verbatim>\<open>v.(float64)\<close> and
  \<^verbatim>\<open>v.(map[string]interface{})\<close>, each with its \<^verbatim>\<open>ok\<close> result as an option.\<close>

fun as_string :: "json \<Rightarrow> string option" where
  "as_string (JStr s) = Some s"
| "as_string _ = None"

fun as_float64 :: "json \<Rightarrow> rat option" where
  "as_float64 (JNum r) = Some r"
| "as_float64 _ = None"

fun as_map :: "json \<Rightarrow> (string \<times> json) list option" where
  "as_map (JObj kvs) = Some kvs"
| "as_map _ = None"

text \<open>The conversion \<^verbatim>\<open>int(id)\<close> of a \<^verbatim>\<open>float64\<close>: truncation towards zero (values
  outside the range of \<^verbatim>\<open>int\<close> are implementation-defined in Go and not modelled).\<close>

definition go_int :: "rat \<Rightarrow> int" where
  "go_int r = (if r < 0 then \<lceil>r\<rceil> else \<lfloor>r\<rfloor>)"

text \<open>\<^verbatim>\<open>fmt.Sprintf("%s-%s", a, b)\<close>.\<close>

definition sprintf_dash :: "string \<Rightarrow> string \<Rightarrow> string" where
  "sprintf_dash a b = a @ ''-'' @ b"

subsection \<open>Subscriptions and channel keys\<close>

text \<open>The struct \<^verbatim>\<open>Subscription\<close> of ws_types.go.\<close>

record Subscription =
  Type :: string
  User :: string
  Coin :: string
  Interval :: string
  NSigFigs :: int
  Mantissa :: int
  AggregateByTime :: bool
  Dex :: string

text \<open>The key computed inside \<^verbatim>\<open>Subscribe\<close> (ws.go, between \<^verbatim>\<open>api.mu.Lock()\<close> and the
  registry write).\<close>

definition subscribeChannelKey :: "Subscription \<Rightarrow> string" where
  "subscribeChannelKey subscription =
     (let channelKey = Type subscription;
          channelKey = (if User subscription \<noteq> [] then sprintf_dash channelKey (User subscription)
                        else channelKey);
          channelKey = (if Coin subscription \<noteq> [] then sprintf_dash channelKey (Coin subscription)
                        else channelKey);
          channelKey = (if Interval subscription \<noteq> []
                        then sprintf_dash channelKey (Interval subscription) else channelKey)
      in channelKey)"

text \<open>The key computed inside \<^verbatim>\<open>Unsubscribe\<close>: the source repeats the code.\<close>

definition unsubscribeChannelKey :: "Subscription \<Rightarrow> string" where
  "unsubscribeChannelKey subscription =
     (let channelKey = Type subscription;
          channelKey = (if User subscription \<noteq> [] then sprintf_dash channelKey (User subscription)
                        else channelKey);
          channelKey = (if Coin subscription \<noteq> [] then sprintf_dash channelKey (Coin subscription)
                        else channelKey);
          channelKey = (if Interval subscription \<noteq> []
                        then sprintf_dash channelKey (Interval subscription) else channelKey)
      in channelKey)"

text \<open>The channel key as the specification words it: one optional segment after the
  other, each a dash and the field, left out when the field is empty.\<close>

definition segment :: "string \<Rightarrow> string" where
  "segment field = (if field = [] then [] else ''-'' @ field)"

definition specChannelKey :: "Subscription \<Rightarrow> string" where
  "specChannelKey s = Type s @ segment (User s) @ segment (Coin s) @ segment (Interval s)"

subsection \<open>Errors, outcomes and response channels\<close>

text \<open>An error value: one built by \<^verbatim>\<open>fmt.Errorf\<close> in ws.go, with its text, or one handed
  back by the websocket library (\<^verbatim>\<open>Dial\<close>, \<^verbatim>\<open>WriteMessage\<close>, \<^verbatim>\<open>Close\<close>,
  \<^verbatim>\<open>ReadMessage\<close>).\<close>

datatype error = Errorf string | LibError string

text \<open>How a piece of Go code ends: it returns, it panics, or it blocks for ever.\<close>

datatype 'a outcome = Returns 'a | Panics | Blocks

text \<open>What travels on a response channel (\<^verbatim>\<open>chan interface{}\<close>): a decoded payload, where
  \<^term>\<open>JNull\<close> is Go's \<^verbatim>\<open>nil\<close>, or an error value.\<close>

datatype val = Payload json | Failure error

definition go_nil :: val where
  "go_nil = Payload JNull"

text \<open>A channel made by \<^verbatim>\<open>make(chan interface{}, 1)\<close>: a buffer of capacity one and the
  closed flag.\<close>

record chan =
  buf :: "val list"
  is_closed :: bool

definition make_chan :: chan where
  "make_chan = \<lparr>buf = [], is_closed = False\<rparr>"

text \<open>\<^verbatim>\<open>ch <- v\<close>: panics on a closed channel, blocks while the buffer is full.\<close>

definition chan_send :: "chan \<Rightarrow> val \<Rightarrow> chan outcome" where
  "chan_send c v =
     (if is_closed c then Panics
      else if length (buf c) \<ge> 1 then Blocks
      else Returns (c\<lparr>buf := buf c @ [v]\<rparr>))"

text \<open>\<^verbatim>\<open>close(ch)\<close>: panics on a channel that is closed already.\<close>

definition chan_close :: "chan \<Rightarrow> chan outcome" where
  "chan_close c = (if is_closed c then Panics else Returns (c\<lparr>is_closed := True\<rparr>))"

text \<open>Whether \<^verbatim>\<open><-ch\<close> can proceed, and what it yields then: the oldest buffered value,
  or the zero value \<^verbatim>\<open>nil\<close> of a closed and drained channel.\<close>

definition chan_ready :: "chan \<Rightarrow> bool" where
  "chan_ready c = (buf c \<noteq> [] \<or> is_closed c)"

definition chan_recv :: "chan \<Rightarrow> val \<times> chan" where
  "chan_recv c = (case buf c of [] \<Rightarrow> (go_nil, c) | v # rest \<Rightarrow> (v, c\<lparr>buf := rest\<rparr>))"

subsection \<open>The client's state\<close>

text \<open>A callback is known by its identity; calling it is recorded, with its argument, in
  the trace \<open>invoked\<close>. The reader hands a handler either the raw \<^verbatim>\<open>response.Data\<close> or, on
  the order-updates path, the \<^verbatim>\<open>[]WsOrder\<close> that \<^verbatim>\<open>encoding/json\<close> decodes from it.\<close>

type_synonym handler = nat

type_synonym chanref = nat

datatype arg = RawData json | OrdersOf json

text \<open>The control messages of ws_types.go, and the frames written to the connection.\<close>

datatype message =
    SubscriptionMessage string Subscription
  | UnsubscriptionMessage string Subscription
  | PostMessage string int string json

datatype frame = TextMessage message | CloseMessage

text \<open>
  The fields of the struct \<^verbatim>\<open>WebSocketAPI\<close> (the embedded \<^verbatim>\<open>Client\<close>, a logger, and the
  two locks are left out; \<open>doneClosed\<close> says whether the current \<^verbatim>\<open>done\<close> channel is
  closed), followed by what lives outside the struct: the heap of response channels
  (a \<^verbatim>\<open>Post\<close> caller keeps its channel after the table entry is gone), the next free
  reference, the number of running reader goroutines, and the two traces.
\<close>

record WebSocketAPI =
  conn :: "nat option"
  wsURL :: string
  connected :: bool
  handlers :: "string \<rightharpoonup> handler"
  postHandlers :: "int \<rightharpoonup> chanref"
  idCounter :: "32 word"
  doneClosed :: bool
  heap :: "chanref \<rightharpoonup> chan"
  nextRef :: chanref
  readLoops :: nat
  written :: "frame list"
  invoked :: "(handler \<times> arg) list"

text \<open>\<^verbatim>\<open>NewWebSocketAPI\<close>; the two URL constants are declared in another file of the
  package and are parameters here.\<close>

definition NewWebSocketAPI :: "string \<Rightarrow> string \<Rightarrow> bool \<Rightarrow> WebSocketAPI" where
  "NewWebSocketAPI MAINNET_WS_URL TESTNET_WS_URL isMainnet =
     \<lparr>conn = None,
      wsURL = (if isMainnet then MAINNET_WS_URL else TESTNET_WS_URL),
      connected = False,
      handlers = Map.empty,
      postHandlers = Map.empty,
      idCounter = 0,
      doneClosed = False,
      heap = Map.empty,
      nextRef = 0,
      readLoops = 0,
      written = [],
      invoked = []\<rparr>"

subsection \<open>Connection lifecycle\<close>

text \<open>\<^verbatim>\<open>Connect\<close>; \<open>dial\<close> is what \<^verbatim>\<open>websocket.DefaultDialer.Dial\<close> returns: an error, or a
  connection (never nil without an error).\<close>

definition Connect :: "WebSocketAPI \<Rightarrow> error + nat \<Rightarrow> error option \<times> WebSocketAPI" where
  "Connect api dial =
     (if connected api then (None, api)
      else case dial of
        Inl err \<Rightarrow> (Some err, api)
      | Inr c \<Rightarrow>
          (None, api\<lparr>conn := Some c, connected := True, doneClosed := False,
                      readLoops := Suc (readLoops api)\<rparr>))"

definition IsConnected :: "WebSocketAPI \<Rightarrow> bool" where
  "IsConnected api = connected api"

text \<open>The loop of \<^verbatim>\<open>Disconnect\<close> over \<^verbatim>\<open>api.postHandlers\<close>: \<open>ids\<close> is the order in which
  \<^verbatim>\<open>range\<close> yields the keys. Each channel is closed, then its entry deleted.\<close>

fun closePostHandlers :: "WebSocketAPI \<Rightarrow> int list \<Rightarrow> WebSocketAPI outcome" where
  "closePostHandlers api [] = Returns api"
| "closePostHandlers api (reqId # ids) =
     (case postHandlers api reqId of
        None \<Rightarrow> closePostHandlers api ids
      | Some ch \<Rightarrow>
          (case heap api ch of
             None \<Rightarrow> Panics
           | Some c \<Rightarrow>
               (case chan_close c of
                  Returns c' \<Rightarrow>
                    closePostHandlers
                      (api\<lparr>heap := (heap api)(ch \<mapsto> c'),
                           postHandlers := (postHandlers api)(reqId := None)\<rparr>) ids
                | Panics \<Rightarrow> Panics
                | Blocks \<Rightarrow> Blocks)))"

text \<open>\<^verbatim>\<open>Disconnect\<close>; \<open>closeFrame\<close> is the result of writing the close frame (an error is
  only logged) and \<open>closeConn\<close> the result of \<^verbatim>\<open>api.conn.Close()\<close>. Calling a method of a nil
  connection panics.\<close>

definition Disconnect ::
  "WebSocketAPI \<Rightarrow> int list \<Rightarrow> error option \<Rightarrow> error option \<Rightarrow> (error option \<times> WebSocketAPI) outcome"
where
  "Disconnect api ids closeFrame closeConn =
     (if \<not> connected api then Returns (None, api)
      else if doneClosed api then Panics
      else
        case closePostHandlers (api\<lparr>doneClosed := True, handlers := Map.empty\<rparr>) ids of
          Panics \<Rightarrow> Panics
        | Blocks \<Rightarrow> Blocks
        | Returns api1 \<Rightarrow>
            (case conn api1 of
               None \<Rightarrow> Panics
             | Some c \<Rightarrow>
                 (let api2 = (case closeFrame of
                                None \<Rightarrow> api1\<lparr>written := written api1 @ [CloseMessage]\<rparr>
                              | Some err \<Rightarrow> api1)
                  in case closeConn of
                       Some err \<Rightarrow> Returns (Some err, api2)
                     | None \<Rightarrow> Returns (None, api2\<lparr>connected := False\<rparr>))))"

text \<open>\<^verbatim>\<open>sendMessage\<close>; \<open>write\<close> is the result of \<^verbatim>\<open>api.conn.WriteMessage\<close>. The three
  message structs always marshal.\<close>

definition sendMessage ::
  "WebSocketAPI \<Rightarrow> message \<Rightarrow> error option \<Rightarrow> (error option \<times> WebSocketAPI) outcome"
where
  "sendMessage api msg write =
     (if \<not> connected api then Returns (Some (Errorf ''not connected''), api)
      else case conn api of
        None \<Rightarrow> Panics
      | Some c \<Rightarrow>
          (case write of
             Some err \<Rightarrow> Returns (Some err, api)
           | None \<Rightarrow> Returns (None, api\<lparr>written := written api @ [TextMessage msg]\<rparr>)))"

subsection \<open>Subscribe and Unsubscribe\<close>

definition Subscribe ::
  "WebSocketAPI \<Rightarrow> Subscription \<Rightarrow> handler \<Rightarrow> error + nat \<Rightarrow> error option
     \<Rightarrow> (error option \<times> WebSocketAPI) outcome"
where
  "Subscribe api subscription callback dial write =
     (case (if \<not> IsConnected api then Connect api dial else (None, api)) of
        (Some err, api1) \<Rightarrow> Returns (Some err, api1)
      | (None, api1) \<Rightarrow>
          sendMessage
            (api1\<lparr>handlers := (handlers api1)(subscribeChannelKey subscription \<mapsto> callback)\<rparr>)
            (SubscriptionMessage ''subscribe'' subscription) write)"

definition Unsubscribe ::
  "WebSocketAPI \<Rightarrow> Subscription \<Rightarrow> error option \<Rightarrow> (error option \<times> WebSocketAPI) outcome"
where
  "Unsubscribe api subscription write =
     (if \<not> IsConnected api then Returns (Some (Errorf ''not connected''), api)
      else
        sendMessage
          (api\<lparr>handlers := (handlers api)(unsubscribeChannelKey subscription := None)\<rparr>)
          (UnsubscriptionMessage ''unsubscribe'' subscription) write)"

subsection \<open>Post\<close>

text \<open>
  \<^verbatim>\<open>Post\<close> blocks in its \<^verbatim>\<open>select\<close> while the reader and other callers run, so it is two
  functions here. \<open>Post_send\<close> is the call up to and including \<^verbatim>\<open>sendMessage\<close>: it returns
  the error of an early return, or the request id and the response channel the caller
  now waits on. The request id is \<^verbatim>\<open>int(api.idCounter.Add(1))\<close> on an \<^verbatim>\<open>atomic.Int32\<close>.
  The deferred deletion of the table entry runs on every return after its registration.
\<close>

definition Post_send ::
  "WebSocketAPI \<Rightarrow> string \<Rightarrow> json \<Rightarrow> error + nat \<Rightarrow> error option
     \<Rightarrow> ((error + int \<times> chanref) \<times> WebSocketAPI) outcome"
where
  "Post_send api requestType payload dial write =
     (case (if \<not> IsConnected api then Connect api dial else (None, api)) of
        (Some err, api1) \<Rightarrow> Returns (Inl err, api1)
      | (None, api1) \<Rightarrow>
          (let counter = idCounter api1 + 1;
               reqId = sint counter;
               responseChan = nextRef api1;
               api2 = api1\<lparr>idCounter := counter,
                          heap := (heap api1)(responseChan \<mapsto> make_chan),
                          nextRef := Suc responseChan,
                          postHandlers := (postHandlers api1)(reqId \<mapsto> responseChan)\<rparr>
           in case sendMessage api2 (PostMessage ''post'' reqId requestType payload) write of
                Returns (Some err, api3) \<Rightarrow>
                  Returns (Inl err, api3\<lparr>postHandlers := (postHandlers api3)(reqId := None)\<rparr>)
              | Returns (None, api3) \<Rightarrow> Returns (Inr (reqId, responseChan), api3)
              | Panics \<Rightarrow> Panics
              | Blocks \<Rightarrow> Blocks))"

text \<open>\<^verbatim>\<open>time.Second\<close>, in nanoseconds, the unit of \<^verbatim>\<open>time.Duration\<close>; and whether the
  channel of \<^verbatim>\<open>time.After(15 * time.Second)\<close> has delivered when \<open>elapsed\<close> nanoseconds
  have passed since \<^verbatim>\<open>Post\<close> entered its \<^verbatim>\<open>select\<close>.\<close>

definition Second :: int where
  "Second = 1000000000"

definition timeAfterFired :: "int \<Rightarrow> bool" where
  "timeAfterFired elapsed = (15 * Second \<le> elapsed)"

text \<open>
  \<open>Post_select\<close> is the \<^verbatim>\<open>select\<close> of a caller that holds \<open>reqId\<close> and \<open>responseChan\<close>, and
  the return after it. \<open>timerFired\<close> says whether \<^verbatim>\<open>time.After(15 * time.Second)\<close> has
  delivered; \<open>preferTimer\<close> is Go's choice when both cases are ready. The result is
  \<^term>\<open>None\<close> while neither case is ready (the caller stays blocked), and otherwise the
  pair \<^verbatim>\<open>(interface{}, error)\<close> that \<^verbatim>\<open>Post\<close> returns. A receive on a nil channel never
  proceeds.
\<close>

definition Post_select ::
  "WebSocketAPI \<Rightarrow> int \<Rightarrow> chanref \<Rightarrow> bool \<Rightarrow> bool
     \<Rightarrow> ((val \<times> error option) \<times> WebSocketAPI) option"
where
  "Post_select api reqId responseChan timerFired preferTimer =
     (let ready = (case heap api responseChan of None \<Rightarrow> False | Some c \<Rightarrow> chan_ready c);
          deferred = (\<lambda>a. a\<lparr>postHandlers := (postHandlers a)(reqId := None)\<rparr>)
      in if ready \<and> \<not> (timerFired \<and> preferTimer) then
           (case heap api responseChan of
              None \<Rightarrow> None
            | Some c \<Rightarrow>
                (case chan_recv c of
                   (response, c') \<Rightarrow>
                     Some ((case response of
                              Failure err \<Rightarrow> (go_nil, Some err)
                            | Payload p \<Rightarrow> (response, None)),
                           deferred (api\<lparr>heap := (heap api)(responseChan \<mapsto> c')\<rparr>))))
         else if timerFired then
           Some ((go_nil, Some (Errorf ''request timeout'')), deferred api)
         else None)"

subsection \<open>The reader\<close>

text \<open>The struct \<^verbatim>\<open>WsResponse\<close> of ws_types.go.\<close>

record WsResponse =
  Channel :: string
  Data :: json

text \<open>
  \<^verbatim>\<open>json.Unmarshal(message, &response)\<close>. The message is \<^term>\<open>None\<close> when its bytes are
  not JSON. A JSON \<^verbatim>\<open>null\<close> leaves the struct at its zero value; anything but an object
  is an error, and so is a \<^verbatim>\<open>channel\<close> that is not a string. (Go also accepts a field
  name that differs in case; the model matches names exactly.)
\<close>

definition unmarshalWsResponse :: "json option \<Rightarrow> WsResponse option" where
  "unmarshalWsResponse message =
     (case message of
        None \<Rightarrow> None
      | Some JNull \<Rightarrow> Some \<lparr>Channel = [], Data = JNull\<rparr>
      | Some (JObj kvs) \<Rightarrow>
          (case index_map kvs ''channel'' of
             JStr s \<Rightarrow> Some \<lparr>Channel = s, Data = index_map kvs ''data''\<rparr>
           | JNull \<Rightarrow> Some \<lparr>Channel = [], Data = index_map kvs ''data''\<rparr>
           | _ \<Rightarrow> None)
      | Some _ \<Rightarrow> None)"

text \<open>\<^verbatim>\<open>ch <- v\<close> on a channel of the heap; a send on a nil channel blocks for ever.\<close>

definition send_on :: "WebSocketAPI \<Rightarrow> chanref \<Rightarrow> val \<Rightarrow> WebSocketAPI outcome" where
  "send_on api ch v =
     (case heap api ch of
        None \<Rightarrow> Blocks
      | Some c \<Rightarrow>
          (case chan_send c v of
             Returns c' \<Rightarrow> Returns (api\<lparr>heap := (heap api)(ch \<mapsto> c')\<rparr>)
           | Panics \<Rightarrow> Panics
           | Blocks \<Rightarrow> Blocks))"

text \<open>The branch of \<^verbatim>\<open>processMessage\<close> for the channel \<^verbatim>\<open>"post"\<close>; \<open>postResponseData\<close> is
  the message decoded again, as a map.\<close>

definition processPost :: "WebSocketAPI \<Rightarrow> (string \<times> json) list \<Rightarrow> WebSocketAPI outcome" where
  "processPost api postResponseData =
     (case as_map (index_map postResponseData ''data'') of
        None \<Rightarrow> Returns api
      | Some data \<Rightarrow>
          (case as_float64 (index_map data ''id'') of
             None \<Rightarrow> Returns api
           | Some reqId \<Rightarrow>
               (case as_map (index_map data ''response'') of
                  None \<Rightarrow> Returns api
                | Some responseObj \<Rightarrow>
                    (let respType = (case as_string (index_map responseObj ''type'') of
                                       Some s \<Rightarrow> s | None \<Rightarrow> [])
                     in case postHandlers api (go_int reqId) of
                          None \<Rightarrow> Returns api
                        | Some ch \<Rightarrow>
                            (if respType = ''error'' then
                               (let errMsg = (case as_string (index_map responseObj ''payload'') of
                                                Some s \<Rightarrow> s | None \<Rightarrow> []);
                                    errMsg = (if errMsg = [] then ''unknown error'' else errMsg)
                                in send_on api ch (Failure (Errorf errMsg)))
                             else send_on api ch (Payload (index_map responseObj ''payload'')))))))"

text \<open>The dispatch key of a feed message: the channel, then the payload's \<^verbatim>\<open>coin\<close>, then
  its \<^verbatim>\<open>user\<close>, each only when the payload is a map that holds a string there.\<close>

definition dispatchKey :: "WsResponse \<Rightarrow> string" where
  "dispatchKey response =
     (let channelKey = Channel response;
          dataMap = (case as_map (Data response) of Some kvs \<Rightarrow> kvs | None \<Rightarrow> []);
          channelKey = (case as_string (index_map dataMap ''coin'') of
                          Some coin \<Rightarrow> sprintf_dash channelKey coin
                        | None \<Rightarrow> channelKey);
          channelKey = (case as_string (index_map dataMap ''user'') of
                          Some user \<Rightarrow> sprintf_dash channelKey user
                        | None \<Rightarrow> channelKey)
      in channelKey)"

definition prefixToMatch :: string where
  "prefixToMatch = ''orderUpdates-''"

text \<open>The test of the prefix scan:
  \<^verbatim>\<open>len(hKey) > len(prefixToMatch) && hKey[:len(prefixToMatch)] == prefixToMatch\<close>.\<close>

definition prefixMatches :: "string \<Rightarrow> bool" where
  "prefixMatches hKey =
     (length hKey > length prefixToMatch \<and> take (length prefixToMatch) hKey = prefixToMatch)"

text \<open>The prefix scan of the order-updates case: \<open>keys\<close> is the order in which \<^verbatim>\<open>range\<close>
  walks \<^verbatim>\<open>api.handlers\<close>; the first entry whose key passes the test is taken.\<close>

fun prefixScan :: "(string \<rightharpoonup> handler) \<Rightarrow> string list \<Rightarrow> handler option" where
  "prefixScan hs [] = None"
| "prefixScan hs (hKey # keys) =
     (case hs hKey of
        None \<Rightarrow> prefixScan hs keys
      | Some h \<Rightarrow>
          (if prefixMatches hKey then Some h else prefixScan hs keys))"

text \<open>Calling a handler: the call is appended to the trace. What the callback itself
  does is the caller's code and is not modelled; the \<^verbatim>\<open>fmt.Println\<close> of each message in
  \<^verbatim>\<open>processMessage\<close> and the debug log are left out as well.\<close>

definition invoke :: "WebSocketAPI \<Rightarrow> handler \<Rightarrow> arg \<Rightarrow> WebSocketAPI" where
  "invoke api h a = api\<lparr>invoked := invoked api @ [(h, a)]\<rparr>"

text \<open>The rest of \<^verbatim>\<open>processMessage\<close>, after the two reserved channels.\<close>

definition dispatchFeed :: "WebSocketAPI \<Rightarrow> string list \<Rightarrow> WsResponse \<Rightarrow> WebSocketAPI" where
  "dispatchFeed api keys response =
     (let channelKey = dispatchKey response;
          found = (if Channel response = ''orderUpdates'' then
                     (case handlers api channelKey of
                        Some h \<Rightarrow> Some h
                      | None \<Rightarrow> prefixScan (handlers api) keys)
                   else None)
      in case found of
           Some h \<Rightarrow> invoke api h (OrdersOf (Data response))
         | None \<Rightarrow>
             (case handlers api channelKey of
                Some h \<Rightarrow> invoke api h (RawData (Data response))
              | None \<Rightarrow> api))"

definition processMessage ::
  "WebSocketAPI \<Rightarrow> string list \<Rightarrow> json option \<Rightarrow> WebSocketAPI outcome"
where
  "processMessage api keys message =
     (case unmarshalWsResponse message of
        None \<Rightarrow> Returns api
      | Some response \<Rightarrow>
          (if Channel response = ''post'' then
             (case message of
                Some (JObj postResponseData) \<Rightarrow> processPost api postResponseData
              | _ \<Rightarrow> Returns api)
           else if Channel response = ''subscriptionResponse'' then Returns api
           else Returns (dispatchFeed api keys response)))"




subsection \<open>Reachable states\<close>


subsection \<open>Example states\<close>

text \<open>A fresh client for the main network, and the same client after a successful
  \<^verbatim>\<open>Connect\<close>.\<close>

definition fresh_api :: WebSocketAPI where
  "fresh_api = NewWebSocketAPI ''wss://mainnet'' ''wss://testnet'' True"

definition connected_api :: WebSocketAPI where
  "connected_api = snd (Connect fresh_api (Inr 1))"

text \<open>A subscription with the given topic, user and coin, and zero values elsewhere.\<close>

definition sub :: "string \<Rightarrow> string \<Rightarrow> string \<Rightarrow> Subscription" where
  "sub t u c = \<lparr>Type = t, User = u, Coin = c, Interval = [], NSigFigs = 0, Mantissa = 0,
                AggregateByTime = False, Dex = []\<rparr>"

text \<open>A feed message \<^verbatim>\<open>{"channel": c, "data": d}\<close>.\<close>

definition feed :: "string \<Rightarrow> json \<Rightarrow> json option" where
  "feed c d = Some (JObj [(''channel'', JStr c), (''data'', d)])"

text \<open>The state a \<^verbatim>\<open>Subscribe\<close> leaves when the dial and the write succeed.\<close>

definition subscribed :: "WebSocketAPI \<Rightarrow> Subscription \<Rightarrow> handler \<Rightarrow> WebSocketAPI" where
  "subscribed api s cb =
     (case Subscribe api s cb (Inr 1) None of Returns (e, api') \<Rightarrow> api' | _ \<Rightarrow> api)"

text \<open>The connected client after the first part of one \<^verbatim>\<open>Post\<close>: the request is sent and
  its caller waits.\<close>

definition posted_api :: WebSocketAPI where
  "posted_api =
     (case Post_send connected_api ''info'' JNull (Inr 1) None of
        Returns (r, api') \<Rightarrow> api' | _ \<Rightarrow> connected_api)"

text \<open>The same client after a \<^verbatim>\<open>Disconnect\<close> that met no error, called while that
  \<^verbatim>\<open>Post\<close> was waiting.\<close>

definition cancelled_api :: WebSocketAPI where
  "cancelled_api =
     (case Disconnect posted_api [1] None None of
        Returns (e, api') \<Rightarrow> api' | _ \<Rightarrow> posted_api)"

section \<open>Properties\<close>

subsection \<open>Channel keys\<close>

lemma subscribeChannelKey_spec: "subscribeChannelKey s = specChannelKey s"
  by (simp add: subscribeChannelKey_def specChannelKey_def segment_def sprintf_dash_def Let_def)

lemma unsubscribeChannelKey_spec: "unsubscribeChannelKey s = specChannelKey s"
  by (simp add: unsubscribeChannelKey_def specChannelKey_def segment_def sprintf_dash_def Let_def)

text \<open>
  Claim C3. For every subscription descriptor, \<^verbatim>\<open>Subscribe\<close> and \<^verbatim>\<open>Unsubscribe\<close> derive the
  same channel key: the topic type, then a dash and the user if the user is non-empty,
  then a dash and the coin if non-empty, then a dash and the interval if non-empty, in
  that order, absent segments skipped.
\<close>

theorem C3_same_channel_key:
  "subscribeChannelKey s = unsubscribeChannelKey s \<and>
   subscribeChannelKey s =
     Type s @ (if User s = [] then [] else ''-'' @ User s)
            @ (if Coin s = [] then [] else ''-'' @ Coin s)
            @ (if Interval s = [] then [] else ''-'' @ Interval s)"
  by (simp add: subscribeChannelKey_def unsubscribeChannelKey_def sprintf_dash_def Let_def)

theorem C3_same_channel_key_witness:
  "subscribeChannelKey (sub ''candle'' [] ''BTC'' \<lparr>Interval := ''1m''\<rparr>) = ''candle-BTC-1m'' \<and>
   unsubscribeChannelKey (sub ''candle'' [] ''BTC'' \<lparr>Interval := ''1m''\<rparr>) = ''candle-BTC-1m''"
  using C3_same_channel_key [of "sub ''candle'' [] ''BTC'' \<lparr>Interval := ''1m''\<rparr>"]
  by (auto simp: sub_def)

subsection \<open>Helper facts about the operations\<close>

lemma connected_api_simps:
  "connected connected_api" "conn connected_api = Some 1" "\<not> connected fresh_api"
  by (simp_all add: connected_api_def fresh_api_def Connect_def NewWebSocketAPI_def)

lemma Subscribe_registers:
  assumes "Subscribe api s cb dial write = Returns (e, api')"
      and "connected api \<or> (\<exists>c. dial = Inr c)"
  shows "handlers api' = (handlers api)(subscribeChannelKey s \<mapsto> cb) \<and> connected api'"
  using assms
  by (auto simp: Subscribe_def IsConnected_def Connect_def sendMessage_def
           split: if_splits option.splits sum.splits prod.splits)

lemma send_on_fields:
  "send_on api ch v = Returns api' \<Longrightarrow>
     invoked api' = invoked api \<and> handlers api' = handlers api \<and> conn api' = conn api
     \<and> connected api' = connected api \<and> postHandlers api' = postHandlers api"
  by (auto simp: send_on_def split: option.splits outcome.splits)

lemma processPost_fields:
  "processPost api kvs = Returns api' \<Longrightarrow>
     invoked api' = invoked api \<and> handlers api' = handlers api \<and> conn api' = conn api
     \<and> connected api' = connected api \<and> postHandlers api' = postHandlers api"
  by (auto simp: processPost_def Let_def dest: send_on_fields split: option.splits if_splits)

lemma Subscribe_fields:
  assumes "Subscribe api s cb dial write = Returns (e, api')"
  shows "invoked api' = invoked api \<and>
         (handlers api' = handlers api \<or> handlers api' = (handlers api)(subscribeChannelKey s \<mapsto> cb))"
  using assms
  by (auto simp: Subscribe_def IsConnected_def Connect_def sendMessage_def
           split: if_splits option.splits sum.splits prod.splits)

lemma dispatchKey_coin_user:
  assumes "as_map (Data response) = Some kvs"
      and "index_map kvs ''coin'' = JStr coin" and "index_map kvs ''user'' = JStr user"
  shows "dispatchKey response = Channel response @ ''-'' @ coin @ ''-'' @ user"
  using assms by (simp add: dispatchKey_def sprintf_dash_def Let_def del: index_map.simps)

lemma prefixScan_None:
  "prefixScan hs keys = None \<longleftrightarrow> (\<forall>k\<in>set keys. \<forall>h. hs k = Some h \<longrightarrow> \<not> prefixMatches k)"
  by (induction keys) (auto simp: prefixMatches_def split: option.splits)

lemma prefixScan_Some:
  "prefixScan hs keys = Some h \<Longrightarrow> \<exists>k\<in>set keys. hs k = Some h \<and> prefixMatches k"
  by (induction keys) (auto simp: prefixMatches_def split: option.splits if_splits)

lemma prefixScan_first:
  "prefixScan hs keys = Some h \<Longrightarrow>
   \<exists>i<length keys. hs (keys ! i) = Some h \<and> prefixMatches (keys ! i) \<and>
      (\<forall>j<i. hs (keys ! j) = None \<or> \<not> prefixMatches (keys ! j))"
proof (induction keys)
  case Nil
  then show ?case by simp
next
  case (Cons k keys)
  show ?case
  proof (cases "\<exists>h'. hs k = Some h' \<and> prefixMatches k")
    case True
    with Cons.prems have "hs k = Some h \<and> prefixMatches k" by auto
    then have "hs ((k # keys) ! 0) = Some h \<and> prefixMatches ((k # keys) ! 0) \<and>
               (\<forall>j<0. hs ((k # keys) ! j) = None \<or> \<not> prefixMatches ((k # keys) ! j))"
      by simp
    then show ?thesis by blast
  next
    case False
    with Cons.prems have "prefixScan hs keys = Some h"
      by (auto split: option.splits if_splits)
    from Cons.IH [OF this] obtain i where i: "i < length keys" "hs (keys ! i) = Some h"
      "prefixMatches (keys ! i)" "\<forall>j<i. hs (keys ! j) = None \<or> \<not> prefixMatches (keys ! j)"
      by blast
    have "\<forall>j<Suc i. hs ((k # keys) ! j) = None \<or> \<not> prefixMatches ((k # keys) ! j)"
    proof (intro allI impI)
      fix j assume "j < Suc i"
      then show "hs ((k # keys) ! j) = None \<or> \<not> prefixMatches ((k # keys) ! j)"
        using False i(4) by (cases j) auto
    qed
    with i(1-3) have "Suc i < length (k # keys) \<and> hs ((k # keys) ! Suc i) = Some h \<and>
        prefixMatches ((k # keys) ! Suc i) \<and>
        (\<forall>j<Suc i. hs ((k # keys) ! j) = None \<or> \<not> prefixMatches ((k # keys) ! j))"
      by simp
    then show ?thesis by blast
  qed
qed

lemma processMessage_feed:
  assumes "unmarshalWsResponse m = Some response"
      and "Channel response \<noteq> ''post''" and "Channel response \<noteq> ''subscriptionResponse''"
  shows "processMessage api keys m = Returns (dispatchFeed api keys response)"
  using assms by (simp add: processMessage_def)


lemma closePostHandlers_table:
  "closePostHandlers api ids = Returns api' \<Longrightarrow>
   postHandlers api' i = (if i \<in> set ids then None else postHandlers api i)"
proof (induction ids arbitrary: api)
  case Nil
  then show ?case by simp
next
  case (Cons j ids)
  then show ?case
    by (auto simp: chan_close_def split: option.splits if_splits)
qed

lemma closePostHandlers_heap:
  "closePostHandlers api ids = Returns api' \<Longrightarrow> heap api ch = Some c \<Longrightarrow>
   \<exists>c'. heap api' ch = Some c' \<and> buf c' = buf c \<and> (is_closed c \<longrightarrow> is_closed c')"
proof (induction ids arbitrary: api c)
  case Nil
  then show ?case by simp
next
  case (Cons j ids)
  show ?case
  proof (cases "postHandlers api j")
    case None
    with Cons show ?thesis by simp
  next
    case (Some ch0)
    with Cons.prems(1) obtain c0 where
      h0: "heap api ch0 = Some c0" and nc: "\<not> is_closed c0" and
      rest: "closePostHandlers
               (api\<lparr>heap := (heap api)(ch0 \<mapsto> c0\<lparr>is_closed := True\<rparr>),
                    postHandlers := (postHandlers api)(j := None)\<rparr>) ids = Returns api'"
      by (auto simp: chan_close_def split: option.splits if_splits)
    let ?api1 = "api\<lparr>heap := (heap api)(ch0 \<mapsto> c0\<lparr>is_closed := True\<rparr>),
                      postHandlers := (postHandlers api)(j := None)\<rparr>"
    show ?thesis
    proof (cases "ch = ch0")
      case True
      then have "heap ?api1 ch = Some (c0\<lparr>is_closed := True\<rparr>)" by simp
      from Cons.IH [OF rest this] True h0 Cons.prems(2) show ?thesis by auto
    next
      case False
      then have "heap ?api1 ch = Some c" using Cons.prems(2) by simp
      from Cons.IH [OF rest this] show ?thesis .
    qed
  qed
qed

lemma closePostHandlers_closes:
  "closePostHandlers api ids = Returns api' \<Longrightarrow> i \<in> set ids \<Longrightarrow> postHandlers api i = Some ch \<Longrightarrow>
   \<exists>c'. heap api' ch = Some c' \<and> is_closed c'"
proof (induction ids arbitrary: api)
  case Nil
  then show ?case by simp
next
  case (Cons j ids)
  show ?case
  proof (cases "postHandlers api j")
    case None
    with Cons.prems have "i \<noteq> j" by auto
    with Cons None show ?thesis by simp
  next
    case (Some ch0)
    with Cons.prems(1) obtain c0 where
      h0: "heap api ch0 = Some c0" and
      rest: "closePostHandlers
               (api\<lparr>heap := (heap api)(ch0 \<mapsto> c0\<lparr>is_closed := True\<rparr>),
                    postHandlers := (postHandlers api)(j := None)\<rparr>) ids = Returns api'"
      by (auto simp: chan_close_def split: option.splits if_splits)
    let ?api1 = "api\<lparr>heap := (heap api)(ch0 \<mapsto> c0\<lparr>is_closed := True\<rparr>),
                      postHandlers := (postHandlers api)(j := None)\<rparr>"
    show ?thesis
    proof (cases "i = j")
      case True
      with Some Cons.prems(3) have "ch = ch0" by simp
      then have "heap ?api1 ch = Some (c0\<lparr>is_closed := True\<rparr>)" by simp
      from closePostHandlers_heap [OF rest this] show ?thesis by auto
    next
      case False
      with Cons.prems have "i \<in> set ids" "postHandlers ?api1 i = Some ch" by auto
      from Cons.IH [OF rest this] show ?thesis .
    qed
  qed
qed











lemma Subscribe_ok:
  assumes "connected api" and "conn api = Some c"
  shows "Subscribe api s cb (Inr 1) None = Returns (None, subscribed api s cb) \<and>
         connected (subscribed api s cb) \<and> conn (subscribed api s cb) = Some c \<and>
         handlers (subscribed api s cb) = (handlers api)(subscribeChannelKey s \<mapsto> cb) \<and>
         invoked (subscribed api s cb) = invoked api"
  using assms by (simp add: subscribed_def Subscribe_def IsConnected_def sendMessage_def)

lemma connected_api_fields:
  "handlers connected_api = Map.empty" "invoked connected_api = []"
  "postHandlers connected_api = Map.empty" "heap connected_api = Map.empty"
  by (simp_all add: connected_api_def fresh_api_def Connect_def NewWebSocketAPI_def)

lemma posted_api_fields:
  "Post_send connected_api ''info'' JNull (Inr 1) None = Returns (Inr (1, 0), posted_api)"
  "postHandlers posted_api = [1 \<mapsto> 0]" "heap posted_api = [0 \<mapsto> make_chan]"
  "connected posted_api" "conn posted_api = Some 1" "\<not> doneClosed posted_api"
  by (simp_all add: posted_api_def Post_send_def IsConnected_def sendMessage_def Let_def
        connected_api_def fresh_api_def Connect_def NewWebSocketAPI_def)

lemma cancelled_api_fields:
  "Disconnect posted_api [1] None None = Returns (None, cancelled_api)"
  "postHandlers cancelled_api = Map.empty"
  "heap cancelled_api = [0 \<mapsto> \<lparr>buf = [], is_closed = True\<rparr>]"
  by (simp_all add: cancelled_api_def Disconnect_def posted_api_fields chan_close_def make_chan_def)

lemma unmarshal_feed:
  "unmarshalWsResponse (feed c d) = Some \<lparr>Channel = c, Data = d\<rparr>"
  by (simp add: unmarshalWsResponse_def feed_def)

lemma subscribed_connected_api:
  "handlers (subscribed connected_api s cb) = [subscribeChannelKey s \<mapsto> cb]"
  "invoked (subscribed connected_api s cb) = []"
  "Subscribe connected_api s cb (Inr 1) None = Returns (None, subscribed connected_api s cb)"
  using Subscribe_ok [of connected_api 1 s cb]
  by (simp_all add: connected_api_simps connected_api_fields)

lemma sub_keys:
  "subscribeChannelKey (sub t u c) =
     t @ (if u = [] then [] else ''-'' @ u) @ (if c = [] then [] else ''-'' @ c)"
  by (simp add: sub_def subscribeChannelKey_spec specChannelKey_def segment_def)

lemma dash_free_keys_differ:
  assumes "CHR ''-'' \<notin> set u" and "CHR ''-'' \<notin> set c" and "u \<noteq> c"
  shows "u @ ''-'' @ x \<noteq> c @ ''-'' @ y"
  using assms
proof (induction u arbitrary: c)
  case Nil
  then show ?case by (cases c) auto
next
  case (Cons a u)
  then show ?case by (cases c) auto
qed

lemma subscribe_key_differs:
  assumes "User s \<noteq> []" and "Coin s \<noteq> []"
      and "CHR ''-'' \<notin> set (User s)" and "CHR ''-'' \<notin> set (Coin s)" and "User s \<noteq> Coin s"
  shows "subscribeChannelKey s \<noteq> Type s @ ''-'' @ Coin s @ ''-'' @ User s"
proof -
  have "subscribeChannelKey s = Type s @ ''-'' @ User s @ ''-'' @ (Coin s @ segment (Interval s))"
    using assms(1,2) by (simp add: subscribeChannelKey_spec specChannelKey_def segment_def)
  moreover have "User s @ ''-'' @ (Coin s @ segment (Interval s)) \<noteq> Coin s @ ''-'' @ User s"
    using assms(3-5) by (rule dash_free_keys_differ)
  ultimately show ?thesis by simp
qed

subsection \<open>Idempotence of the lifecycle operations\<close>

text \<open>
  Claim C7. Calling \<^verbatim>\<open>Connect\<close> while connected returns no error and leaves the state as
  it is; calling \<^verbatim>\<open>Disconnect\<close> while disconnected returns no error and leaves the state
  as it is.
\<close>

theorem C7_idempotent:
  "(connected api \<longrightarrow> Connect api dial = (None, api)) \<and>
   (\<not> connected api \<longrightarrow> Disconnect api ids closeFrame closeConn = Returns (None, api))"
  by (simp add: Connect_def Disconnect_def)

theorem C7_idempotent_witness:
  "connected connected_api \<and> Connect connected_api (Inr 2) = (None, connected_api) \<and>
   \<not> connected fresh_api \<and> Disconnect fresh_api [] None None = Returns (None, fresh_api)"
  using C7_idempotent [of connected_api "Inr 2"] C7_idempotent [of fresh_api _ "[]" None None]
  by (simp add: connected_api_simps)

subsection \<open>The connection handle\<close>




subsection \<open>The registry\<close>

text \<open>
  Claim C9. The fields \<^verbatim>\<open>NSigFigs\<close>, \<^verbatim>\<open>Mantissa\<close>, \<^verbatim>\<open>AggregateByTime\<close> and \<^verbatim>\<open>Dex\<close> have no
  part in the channel key: two subscriptions that agree on type, user, coin and interval
  get the same registry slot, and subscribing to the second (a call that gets past its
  connection step) overwrites the handler of the first.
\<close>

theorem C9_ignored_fields_share_slot:
  assumes "Type s1 = Type s2" and "User s1 = User s2" and "Coin s1 = Coin s2"
      and "Interval s1 = Interval s2"
      and "Subscribe api s1 h1 dial1 write1 = Returns (e1, api1)"
      and "Subscribe api1 s2 h2 dial2 write2 = Returns (e2, api2)"
      and "connected api1 \<or> (\<exists>c. dial2 = Inr c)"
  shows "subscribeChannelKey s1 = subscribeChannelKey s2 \<and>
         handlers api2 (subscribeChannelKey s1) = Some h2"
proof -
  have k: "subscribeChannelKey s1 = subscribeChannelKey s2"
    using assms(1-4) by (simp add: subscribeChannelKey_spec specChannelKey_def)
  have "handlers api2 = (handlers api1)(subscribeChannelKey s2 \<mapsto> h2)"
    using Subscribe_registers [OF assms(6) assms(7)] by simp
  with k show ?thesis by simp
qed

theorem C9_ignored_fields_share_slot_witness:
  "subscribeChannelKey ((sub ''l2Book'' [] ''BTC'')\<lparr>NSigFigs := 5\<rparr>) = ''l2Book-BTC'' \<and>
   handlers (subscribed (subscribed connected_api ((sub ''l2Book'' [] ''BTC'')\<lparr>NSigFigs := 5\<rparr>) 10)
               ((sub ''l2Book'' [] ''BTC'')\<lparr>NSigFigs := 2, Mantissa := 5, AggregateByTime := True,
                                               Dex := ''x''\<rparr>) 11)
     ''l2Book-BTC'' = Some 11"
proof -
  let ?s1 = "(sub ''l2Book'' [] ''BTC'')\<lparr>NSigFigs := 5\<rparr>"
  let ?s2 = "(sub ''l2Book'' [] ''BTC'')\<lparr>NSigFigs := 2, Mantissa := 5, AggregateByTime := True,
                                               Dex := ''x''\<rparr>"
  let ?a1 = "subscribed connected_api ?s1 10"
  have 1: "Subscribe connected_api ?s1 10 (Inr 1) None = Returns (None, ?a1)"
      and c1: "connected ?a1" and n1: "conn ?a1 = Some 1"
    using Subscribe_ok [of connected_api 1 ?s1 10] by (simp_all add: connected_api_simps)
  have 2: "Subscribe ?a1 ?s2 11 (Inr 1) None = Returns (None, subscribed ?a1 ?s2 11)"
    using Subscribe_ok [OF c1 n1, of ?s2 11] by simp
  have k: "subscribeChannelKey ?s1 = ''l2Book-BTC''"
    by (simp add: sub_def subscribeChannelKey_spec specChannelKey_def segment_def)
  have "subscribeChannelKey ?s1 = subscribeChannelKey ?s2 \<and>
        handlers (subscribed ?a1 ?s2 11) (subscribeChannelKey ?s1) = Some 11"
    by (rule C9_ignored_fields_share_slot [OF _ _ _ _ 1 2]) (simp_all add: sub_def c1)
  then have "handlers (subscribed ?a1 ?s2 11) (subscribeChannelKey ?s1) = Some 11" ..
  then have "handlers (subscribed ?a1 ?s2 11) ''l2Book-BTC'' = Some 11"
    unfolding k .
  with k show ?thesis ..
qed

text \<open>
  Claim C10. \<^verbatim>\<open>Subscribe\<close> writes the registry before it sends and does not roll back:
  when the write of the subscribe message fails, \<^verbatim>\<open>Subscribe\<close> returns that error and the
  new handler stays registered under its key; when the write of the unsubscribe message
  fails, \<^verbatim>\<open>Unsubscribe\<close> returns that error and the key stays deleted.
\<close>

theorem C10_no_rollback:
  assumes "connected api \<longrightarrow> conn api \<noteq> None"
  shows "(connected api \<or> dial = Inr c \<longrightarrow>
            (\<exists>api'. Subscribe api s cb dial (Some err) = Returns (Some err, api') \<and>
                    handlers api' = (handlers api)(subscribeChannelKey s \<mapsto> cb))) \<and>
         (connected api \<longrightarrow>
            (\<exists>api'. Unsubscribe api s (Some err) = Returns (Some err, api') \<and>
                    handlers api' = (handlers api)(unsubscribeChannelKey s := None)))"
  using assms
  by (auto simp: Subscribe_def Unsubscribe_def IsConnected_def Connect_def sendMessage_def
           split: if_splits option.splits sum.splits prod.splits)

theorem C10_no_rollback_witness:
  "(\<exists>api'. Subscribe connected_api (sub ''l2Book'' [] ''BTC'') 10 (Inr 1) (Some (LibError ''broken pipe''))
            = Returns (Some (LibError ''broken pipe''), api') \<and>
          handlers api' = [''l2Book-BTC'' \<mapsto> 10]) \<and>
   (\<exists>api'. Unsubscribe (subscribed connected_api (sub ''l2Book'' [] ''BTC'') 10)
              (sub ''l2Book'' [] ''BTC'') (Some (LibError ''broken pipe''))
            = Returns (Some (LibError ''broken pipe''), api') \<and>
          handlers api' = Map.empty)"
proof -
  let ?s = "sub ''l2Book'' [] ''BTC''"
  let ?a1 = "subscribed connected_api ?s 10"
  have k: "subscribeChannelKey ?s = ''l2Book-BTC''" "unsubscribeChannelKey ?s = ''l2Book-BTC''"
    by (simp_all add: sub_def subscribeChannelKey_spec unsubscribeChannelKey_spec
          specChannelKey_def segment_def)
  have a1: "connected ?a1" "conn ?a1 = Some 1" "handlers ?a1 = [''l2Book-BTC'' \<mapsto> 10]"
    using Subscribe_ok [of connected_api 1 ?s 10] k
    by (simp_all add: connected_api_simps connected_api_fields)
  have "\<exists>api'. Subscribe connected_api ?s 10 (Inr 1) (Some (LibError ''broken pipe''))
            = Returns (Some (LibError ''broken pipe''), api') \<and>
          handlers api' = [''l2Book-BTC'' \<mapsto> 10]"
    using C10_no_rollback [of connected_api "Inr 1" 1 ?s 10 "LibError ''broken pipe''"] k
    by (simp add: connected_api_simps connected_api_fields)
  moreover have "\<exists>api'. Unsubscribe ?a1 ?s (Some (LibError ''broken pipe''))
            = Returns (Some (LibError ''broken pipe''), api') \<and>
          handlers api' = Map.empty"
    using C10_no_rollback [of ?a1 "Inr 1" 1 ?s 10 "LibError ''broken pipe''"] k a1
    by simp
  ultimately show ?thesis by simp
qed

subsection \<open>Dispatch\<close>

text \<open>
  Claim C4, as amended. For an inbound order-updates message with no exact-key match:
  if the registry holds a handler under a key that is longer than \<^verbatim>\<open>"orderUpdates-"\<close> and
  starts with it, the prefix scan selects the first such entry in the order in which
  \<^verbatim>\<open>range\<close> walks the registry, and its handler is invoked with the message's orders; if
  the registry holds no such key the message is dropped. The bare key \<^verbatim>\<open>"orderUpdates"\<close>
  does not pass the test of the scan.
\<close>

theorem C4_prefix_scan:
  assumes "unmarshalWsResponse m = Some response"
      and "Channel response = ''orderUpdates''"
      and "handlers api key = None"
      and "set keys = dom (handlers api)"
      and "dataMap = (case as_map (Data response) of Some kvs \<Rightarrow> kvs | None \<Rightarrow> [])"
      and "coin = as_string (index_map dataMap ''coin'')"
      and "user = as_string (index_map dataMap ''user'')"
      and "key = Channel response @ (case coin of Some c \<Rightarrow> ''-'' @ c | None \<Rightarrow> [])
                                  @ (case user of Some u \<Rightarrow> ''-'' @ u | None \<Rightarrow> [])"
  shows "((\<exists>k h. handlers api k = Some h \<and> prefixMatches k) \<longrightarrow>
          (\<exists>i h. i < length keys \<and> handlers api (keys ! i) = Some h \<and> prefixMatches (keys ! i)
                  \<and> (\<forall>j<i. \<not> prefixMatches (keys ! j))
                  \<and> processMessage api keys m = Returns (invoke api h (OrdersOf (Data response))))) \<and>
         (\<not> (\<exists>k h. handlers api k = Some h \<and> prefixMatches k) \<longrightarrow>
          processMessage api keys m = Returns api) \<and>
         \<not> prefixMatches ''orderUpdates''"
proof -
  have bare: "\<not> prefixMatches ''orderUpdates''"
    by (simp add: prefixMatches_def prefixToMatch_def)
  have pm: "processMessage api keys m = Returns (dispatchFeed api keys response)"
    using assms(1,2) by (simp add: processMessage_feed)
  have "dispatchKey response = key"
    using assms(5-8)
    by (simp add: dispatchKey_def sprintf_dash_def Let_def del: index_map.simps split: option.splits)
  with assms(3) have nokey: "handlers api (dispatchKey response) = None" by simp
  show ?thesis
  proof (cases "prefixScan (handlers api) keys")
    case None
    then have no: "\<not> (\<exists>k h. handlers api k = Some h \<and> prefixMatches k)"
      using assms(4) by (auto simp: prefixScan_None)
    have "dispatchFeed api keys response = api"
      using None assms(2) nokey by (simp add: dispatchFeed_def)
    with pm have dropped: "processMessage api keys m = Returns api" by simp
    show ?thesis
    proof (intro conjI impI)
      assume "\<exists>k h. handlers api k = Some h \<and> prefixMatches k"
      with no show "\<exists>i h. i < length keys \<and> handlers api (keys ! i) = Some h
                  \<and> prefixMatches (keys ! i) \<and> (\<forall>j<i. \<not> prefixMatches (keys ! j))
                  \<and> processMessage api keys m = Returns (invoke api h (OrdersOf (Data response)))"
        by contradiction
    next
      show "processMessage api keys m = Returns api" by (rule dropped)
    next
      show "\<not> prefixMatches ''orderUpdates''" by (rule bare)
    qed
  next
    case (Some h)
    from prefixScan_first [OF Some] obtain i where i: "i < length keys"
      "handlers api (keys ! i) = Some h" "prefixMatches (keys ! i)"
      "\<forall>j<i. handlers api (keys ! j) = None \<or> \<not> prefixMatches (keys ! j)"
      by blast
    have nj: "\<forall>j<i. \<not> prefixMatches (keys ! j)"
    proof (intro allI impI)
      fix j assume j: "j < i"
      then have "j < length keys" using i(1) by simp
      then have "keys ! j \<in> set keys" by (rule nth_mem)
      then have "keys ! j \<in> dom (handlers api)" unfolding assms(4) .
      then have "handlers api (keys ! j) \<noteq> None" by (simp add: dom_def)
      moreover from i(4) have "j < i \<longrightarrow> handlers api (keys ! j) = None \<or> \<not> prefixMatches (keys ! j)"
        by (rule spec)
      then have "handlers api (keys ! j) = None \<or> \<not> prefixMatches (keys ! j)"
        using j by (rule mp)
      ultimately show "\<not> prefixMatches (keys ! j)" by auto
    qed
    have "dispatchFeed api keys response = invoke api h (OrdersOf (Data response))"
      using Some assms(2) nokey by (simp add: dispatchFeed_def)
    with pm have pmh: "processMessage api keys m = Returns (invoke api h (OrdersOf (Data response)))"
      by simp
    have sel: "\<exists>i h. i < length keys \<and> handlers api (keys ! i) = Some h \<and> prefixMatches (keys ! i)
                  \<and> (\<forall>j<i. \<not> prefixMatches (keys ! j))
                  \<and> processMessage api keys m = Returns (invoke api h (OrdersOf (Data response)))"
    proof (rule exI [where x = i], rule exI [where x = h], intro conjI)
      show "i < length keys" by (rule i(1))
      show "handlers api (keys ! i) = Some h" by (rule i(2))
      show "prefixMatches (keys ! i)" by (rule i(3))
      show "\<forall>j<i. \<not> prefixMatches (keys ! j)" by (rule nj)
      show "processMessage api keys m = Returns (invoke api h (OrdersOf (Data response)))"
        by (rule pmh)
    qed
    have ex: "\<exists>k h. handlers api k = Some h \<and> prefixMatches k"
      using i(2,3) by blast
    show ?thesis
    proof (intro conjI impI)
      show "\<exists>i h. i < length keys \<and> handlers api (keys ! i) = Some h \<and> prefixMatches (keys ! i)
                  \<and> (\<forall>j<i. \<not> prefixMatches (keys ! j))
                  \<and> processMessage api keys m = Returns (invoke api h (OrdersOf (Data response)))"
        by (rule sel)
    next
      assume "\<not> (\<exists>k h. handlers api k = Some h \<and> prefixMatches k)"
      with ex show "processMessage api keys m = Returns api" by contradiction
    next
      show "\<not> prefixMatches ''orderUpdates''" by (rule bare)
    qed
  qed
qed

theorem C4_prefix_scan_witness:
  "processMessage
     (subscribed (subscribed connected_api (sub ''orderUpdates'' ''0xabc'' []) 7)
        (sub ''orderUpdates'' ''0xdef'' []) 8)
     [''orderUpdates-0xdef'', ''orderUpdates-0xabc''] (feed ''orderUpdates'' (JArr []))
     = Returns (invoke (subscribed (subscribed connected_api (sub ''orderUpdates'' ''0xabc'' []) 7)
                          (sub ''orderUpdates'' ''0xdef'' []) 8) 8 (OrdersOf (JArr []))) \<and>
   processMessage
     (subscribed (subscribed connected_api (sub ''orderUpdates'' ''0xabc'' []) 7)
        (sub ''orderUpdates'' ''0xdef'' []) 8)
     [''orderUpdates-0xabc'', ''orderUpdates-0xdef''] (feed ''orderUpdates'' (JArr []))
     = Returns (invoke (subscribed (subscribed connected_api (sub ''orderUpdates'' ''0xabc'' []) 7)
                          (sub ''orderUpdates'' ''0xdef'' []) 8) 7 (OrdersOf (JArr []))) \<and>
   processMessage (subscribed connected_api (sub ''orderUpdates'' [] []) 7) [''orderUpdates'']
       (feed ''orderUpdates'' (JObj [(''user'', JStr ''0xabc'')]))
     = Returns (subscribed connected_api (sub ''orderUpdates'' [] []) 7) \<and>
   \<not> prefixMatches ''orderUpdates''"
proof -
  let ?a1 = "subscribed connected_api (sub ''orderUpdates'' ''0xabc'' []) 7"
  let ?a = "subscribed ?a1 (sub ''orderUpdates'' ''0xdef'' []) 8"
  let ?b = "subscribed connected_api (sub ''orderUpdates'' [] []) 7"
  let ?m = "feed ''orderUpdates'' (JArr [])"
  let ?r = "\<lparr>Channel = ''orderUpdates'', Data = JArr []\<rparr>"
  have pm: "prefixMatches ''orderUpdates-0xabc''" "prefixMatches ''orderUpdates-0xdef''"
           "\<not> prefixMatches ''orderUpdates''"
    by (simp_all add: prefixMatches_def prefixToMatch_def)
  have a1: "connected ?a1" "conn ?a1 = Some 1" "handlers ?a1 = [''orderUpdates-0xabc'' \<mapsto> 7]"
    using Subscribe_ok [of connected_api 1 "sub ''orderUpdates'' ''0xabc'' []" 7]
    by (simp_all add: connected_api_simps connected_api_fields sub_keys)
  have ha: "handlers ?a = [''orderUpdates-0xabc'' \<mapsto> 7, ''orderUpdates-0xdef'' \<mapsto> 8]"
    using Subscribe_ok [OF a1(1,2), of "sub ''orderUpdates'' ''0xdef'' []" 8] a1(3)
    by (simp add: sub_keys)
  have hb: "handlers ?b = [''orderUpdates'' \<mapsto> 7]"
    by (simp add: subscribed_connected_api sub_keys)
  have ex: "\<exists>k h. handlers ?a k = Some h \<and> prefixMatches k"
    using ha pm(1) by auto
  have nex: "\<not> (\<exists>k h. handlers ?b k = Some h \<and> prefixMatches k)"
    using hb pm(3) by (auto split: if_splits)
  have dk: "dispatchKey ?r = ''orderUpdates''"
    by (simp add: dispatchKey_def)
  have first: "processMessage ?a [k1, k2] ?m = Returns (invoke ?a h1 (OrdersOf (JArr [])))"
    if d: "set [k1, k2] = dom (handlers ?a)" and p: "prefixMatches k1"
       and h: "handlers ?a k1 = Some h1" for k1 k2 h1
  proof -
    have "\<exists>i h. i < length [k1, k2] \<and> handlers ?a ([k1, k2] ! i) = Some h
                \<and> prefixMatches ([k1, k2] ! i) \<and> (\<forall>j<i. \<not> prefixMatches ([k1, k2] ! j))
                \<and> processMessage ?a [k1, k2] ?m = Returns (invoke ?a h (OrdersOf (Data ?r)))"
      using C4_prefix_scan [OF unmarshal_feed _ _ d refl refl refl refl,
                             of "''orderUpdates''" "JArr []"] ex
      by (simp add: ha)
    then obtain i h' where i: "handlers ?a ([k1, k2] ! i) = Some h'"
        "\<forall>j<i. \<not> prefixMatches ([k1, k2] ! j)"
        "processMessage ?a [k1, k2] ?m = Returns (invoke ?a h' (OrdersOf (Data ?r)))"
      by blast
    have "i = 0"
    proof (rule ccontr)
      assume "i \<noteq> 0"
      then have "0 < i" by simp
      with i(2) have "\<not> prefixMatches ([k1, k2] ! 0)" by blast
      with p show False by simp
    qed
    with i(1) h have "h' = h1" by simp
    with i(3) show ?thesis by simp
  qed
  have 1: "processMessage ?a [''orderUpdates-0xdef'', ''orderUpdates-0xabc''] ?m
             = Returns (invoke ?a 8 (OrdersOf (JArr [])))"
    by (rule first) (auto simp: ha pm split: if_splits)
  have 2: "processMessage ?a [''orderUpdates-0xabc'', ''orderUpdates-0xdef''] ?m
             = Returns (invoke ?a 7 (OrdersOf (JArr [])))"
    by (rule first) (auto simp: ha pm split: if_splits)
  have 3: "processMessage ?b [''orderUpdates'']
             (feed ''orderUpdates'' (JObj [(''user'', JStr ''0xabc'')])) = Returns ?b"
    using C4_prefix_scan [OF unmarshal_feed _ _ _ refl refl refl refl, of "''orderUpdates''"
        "JObj [(''user'', JStr ''0xabc'')]" ?b "[''orderUpdates'']"] nex
    by (simp add: hb)
  from 1 2 3 pm(3) show ?thesis by (intro conjI)
qed

text \<open>Claim C4 as stated fails: a handler registered under the bare topic type is not
  reached by a message whose derived key has a user segment; the message is dropped.\<close>

theorem C4_counterexample:
  "handlers (subscribed connected_api (sub ''orderUpdates'' [] []) 7) ''orderUpdates'' = Some 7 \<and>
   dispatchKey \<lparr>Channel = ''orderUpdates'', Data = JObj [(''user'', JStr ''0xabc'')]\<rparr>
     = ''orderUpdates-0xabc'' \<and>
   handlers (subscribed connected_api (sub ''orderUpdates'' [] []) 7) ''orderUpdates-0xabc'' = None \<and>
   processMessage (subscribed connected_api (sub ''orderUpdates'' [] []) 7) [''orderUpdates'']
       (feed ''orderUpdates'' (JObj [(''user'', JStr ''0xabc'')]))
     = Returns (subscribed connected_api (sub ''orderUpdates'' [] []) 7) \<and>
   invoked (subscribed connected_api (sub ''orderUpdates'' [] []) 7) = []"
  by (simp add: subscribed_connected_api sub_keys processMessage_def unmarshal_feed
        dispatchFeed_def dispatchKey_def sprintf_dash_def prefixMatches_def prefixToMatch_def)

text \<open>
  Claim C5, as amended. The key of every lookup is the derived key: the channel label,
  then a dash and the payload's \<^verbatim>\<open>coin\<close> if the payload is a map with a string there, then
  a dash and its \<^verbatim>\<open>user\<close> likewise. For a feed message on a channel other than order
  updates, a handler under that key is invoked with the raw payload, and otherwise the
  message is dropped, also when a handler is registered under the bare channel label.
  For an order-updates message that neither the exact lookup nor the prefix scan
  serves, the last lookup repeats the derived key and the message is dropped. The
  derived key is the bare channel label exactly when the payload has no string
  \<^verbatim>\<open>coin\<close> and no string \<^verbatim>\<open>user\<close>.
\<close>

theorem C5_final_lookup:
  assumes "unmarshalWsResponse m = Some response"
      and "Channel response \<noteq> ''post''" and "Channel response \<noteq> ''subscriptionResponse''"
      and "dataMap = (case as_map (Data response) of Some kvs \<Rightarrow> kvs | None \<Rightarrow> [])"
      and "coin = as_string (index_map dataMap ''coin'')"
      and "user = as_string (index_map dataMap ''user'')"
      and "key = Channel response @ (case coin of Some c \<Rightarrow> ''-'' @ c | None \<Rightarrow> [])
                                  @ (case user of Some u \<Rightarrow> ''-'' @ u | None \<Rightarrow> [])"
  shows "(Channel response \<noteq> ''orderUpdates'' \<longrightarrow>
            processMessage api keys m =
              Returns (case handlers api key of
                         Some h \<Rightarrow> invoke api h (RawData (Data response))
                       | None \<Rightarrow> api)) \<and>
         (Channel response = ''orderUpdates'' \<and> handlers api key = None
            \<and> (\<forall>k h. handlers api k = Some h \<longrightarrow> \<not> prefixMatches k) \<longrightarrow>
            processMessage api keys m = Returns api) \<and>
         (key = Channel response \<longleftrightarrow> coin = None \<and> user = None) \<and>
         (Channel response \<noteq> ''orderUpdates'' \<and> key \<noteq> Channel response
            \<and> handlers api key = None \<and> handlers api (Channel response) = Some h0 \<longrightarrow>
            processMessage api keys m = Returns api)"
proof -
  have k: "dispatchKey response = key"
    using assms(4-7)
    by (simp add: dispatchKey_def sprintf_dash_def Let_def del: index_map.simps split: option.splits)
  have pm: "processMessage api keys m = Returns (dispatchFeed api keys response)"
    using assms(1-3) by (simp add: processMessage_feed)
  have 1: "Channel response \<noteq> ''orderUpdates'' \<longrightarrow>
            processMessage api keys m =
              Returns (case handlers api key of
                         Some h \<Rightarrow> invoke api h (RawData (Data response))
                       | None \<Rightarrow> api)"
    using pm k by (simp add: dispatchFeed_def)
  have 2: "Channel response = ''orderUpdates'' \<and> handlers api key = None
            \<and> (\<forall>k h. handlers api k = Some h \<longrightarrow> \<not> prefixMatches k) \<longrightarrow>
            processMessage api keys m = Returns api"
  proof (intro impI, elim conjE)
    assume a: "Channel response = ''orderUpdates''" "handlers api key = None"
       "\<forall>k h. handlers api k = Some h \<longrightarrow> \<not> prefixMatches k"
    then have "prefixScan (handlers api) keys = None" by (simp add: prefixScan_None)
    with a pm k show "processMessage api keys m = Returns api" by (simp add: dispatchFeed_def)
  qed
  have 3: "key = Channel response \<longleftrightarrow> coin = None \<and> user = None"
    using assms(7) by (auto split: option.splits)
  have 4: "Channel response \<noteq> ''orderUpdates'' \<and> key \<noteq> Channel response
            \<and> handlers api key = None \<and> handlers api (Channel response) = Some h0 \<longrightarrow>
            processMessage api keys m = Returns api"
    using 1 by simp
  show ?thesis
    by (intro conjI) (rule 1, rule 2, rule 3, rule 4)
qed

theorem C5_final_lookup_witness:
  "processMessage (subscribed connected_api (sub ''l2Book'' [] ''BTC'') 7) [''l2Book-BTC'']
       (feed ''l2Book'' (JObj [(''coin'', JStr ''BTC'')]))
     = Returns (invoke (subscribed connected_api (sub ''l2Book'' [] ''BTC'') 7) 7
                  (RawData (JObj [(''coin'', JStr ''BTC'')]))) \<and>
   processMessage (subscribed connected_api (sub ''l2Book'' [] []) 7) [''l2Book'']
       (feed ''l2Book'' (JObj [(''coin'', JStr ''BTC'')]))
     = Returns (subscribed connected_api (sub ''l2Book'' [] []) 7) \<and>
   processMessage (subscribed connected_api (sub ''allMids'' [] []) 7) [''allMids'']
       (feed ''allMids'' (JObj [(''mids'', JObj [])]))
     = Returns (invoke (subscribed connected_api (sub ''allMids'' [] []) 7) 7
                  (RawData (JObj [(''mids'', JObj [])]))) \<and>
   processMessage (subscribed connected_api (sub ''orderUpdates'' [] []) 7) [''orderUpdates'']
       (feed ''orderUpdates'' (JObj [(''user'', JStr ''0xabc'')]))
     = Returns (subscribed connected_api (sub ''orderUpdates'' [] []) 7)"
proof -
  let ?a = "subscribed connected_api (sub ''l2Book'' [] ''BTC'') 7"
  let ?b = "subscribed connected_api (sub ''l2Book'' [] []) 7"
  let ?c = "subscribed connected_api (sub ''orderUpdates'' [] []) 7"
  let ?e = "subscribed connected_api (sub ''allMids'' [] []) 7"
  let ?d = "JObj [(''coin'', JStr ''BTC'')]"
  let ?u = "JObj [(''user'', JStr ''0xabc'')]"
  let ?n = "JObj [(''mids'', JObj [])]"
  have np: "\<not> prefixMatches ''orderUpdates''"
    by (simp add: prefixMatches_def prefixToMatch_def)
  have 1: "processMessage ?a [''l2Book-BTC''] (feed ''l2Book'' ?d) = Returns (invoke ?a 7 (RawData ?d))"
    using C5_final_lookup [OF unmarshal_feed _ _ refl refl refl refl, of "''l2Book''" ?d ?a
        "[''l2Book-BTC'']"]
    by (simp add: subscribed_connected_api sub_keys)
  have 2: "processMessage ?b [''l2Book''] (feed ''l2Book'' ?d) = Returns ?b"
    using C5_final_lookup [OF unmarshal_feed _ _ refl refl refl refl, of "''l2Book''" ?d ?b
        "[''l2Book'']" 7]
    by (simp add: subscribed_connected_api sub_keys)
  have 3: "processMessage ?e [''allMids''] (feed ''allMids'' ?n) = Returns (invoke ?e 7 (RawData ?n))"
    using C5_final_lookup [OF unmarshal_feed _ _ refl refl refl refl, of "''allMids''" ?n ?e
        "[''allMids'']"]
    by (simp add: subscribed_connected_api sub_keys)
  have 4: "processMessage ?c [''orderUpdates''] (feed ''orderUpdates'' ?u) = Returns ?c"
    using C5_final_lookup [OF unmarshal_feed _ _ refl refl refl refl, of "''orderUpdates''" ?u ?c
        "[''orderUpdates'']"] np
    by (simp add: subscribed_connected_api sub_keys split: if_splits)
  from 1 2 3 4 show ?thesis by (intro conjI)
qed

text \<open>Claim C5 as stated fails: with a handler registered under the bare label
  \<^verbatim>\<open>"l2Book"\<close>, a message whose payload names a coin is dropped.\<close>

theorem C5_counterexample:
  "handlers (subscribed connected_api (sub ''l2Book'' [] []) 7) ''l2Book'' = Some 7 \<and>
   unmarshalWsResponse (feed ''l2Book'' (JObj [(''coin'', JStr ''BTC'')]))
     = Some \<lparr>Channel = ''l2Book'', Data = JObj [(''coin'', JStr ''BTC'')]\<rparr> \<and>
   dispatchKey \<lparr>Channel = ''l2Book'', Data = JObj [(''coin'', JStr ''BTC'')]\<rparr> = ''l2Book-BTC'' \<and>
   processMessage (subscribed connected_api (sub ''l2Book'' [] []) 7) [''l2Book'']
       (feed ''l2Book'' (JObj [(''coin'', JStr ''BTC'')]))
     = Returns (subscribed connected_api (sub ''l2Book'' [] []) 7) \<and>
   invoked (subscribed connected_api (sub ''l2Book'' [] []) 7) = []"
  by (simp add: subscribed_connected_api sub_keys processMessage_def unmarshal_feed
        dispatchFeed_def dispatchKey_def sprintf_dash_def)

text \<open>
  Claim C8, as amended. For a subscription with non-empty user and coin on a topic
  other than order updates, whose key (type, user, coin, interval) differs as a string
  from type, coin, user: a message on that topic whose payload holds the matching coin
  and user is dispatched under the key type-coin-user, so the handler invoked, if any, is
  the one the registry held under that key before the subscription; the slot that
  \<^verbatim>\<open>Subscribe\<close> wrote is not read.
\<close>

theorem C8_subscribe_order_key_missed:
  assumes "User s \<noteq> []" and "Coin s \<noteq> []"
      and "Type s \<noteq> ''orderUpdates''"
      and "subscribeChannelKey s \<noteq> Type s @ ''-'' @ Coin s @ ''-'' @ User s"
      and "Subscribe api s cb dial write = Returns (e, api')"
      and "unmarshalWsResponse m = Some response"
      and "Channel response = Type s"
      and "as_map (Data response) = Some kvs"
      and "index_map kvs ''coin'' = JStr (Coin s)"
      and "index_map kvs ''user'' = JStr (User s)"
      and "processMessage api' keys m = Returns api''"
  shows "dispatchKey response = Type s @ ''-'' @ Coin s @ ''-'' @ User s \<and>
         invoked api'' = invoked api' @
           (if Type s = ''post'' \<or> Type s = ''subscriptionResponse'' then []
            else case handlers api (dispatchKey response) of
                   None \<Rightarrow> []
                 | Some h \<Rightarrow> [(h, RawData (Data response))])"
proof -
  have k: "dispatchKey response = Type s @ ''-'' @ Coin s @ ''-'' @ User s"
    using dispatchKey_coin_user [OF assms(8,9,10)] assms(7) by simp
  have h: "handlers api' (dispatchKey response) = handlers api (dispatchKey response)"
    using Subscribe_fields [OF assms(5)] assms(4) k by auto
  show ?thesis
  proof (cases "Type s = ''post'' \<or> Type s = ''subscriptionResponse''")
    case True
    then show ?thesis
      using assms(6,7,11) k
      by (auto simp: processMessage_def dest: processPost_fields
               split: option.splits json.splits if_splits)
  next
    case False
    then have "api'' = dispatchFeed api' keys response"
      using assms(6,7,11) by (auto simp: processMessage_def)
    then show ?thesis
      using False assms(3,7) h k
      by (auto simp: dispatchFeed_def invoke_def Let_def split: option.splits)
  qed
qed

theorem C8_subscribe_order_key_missed_witness:
  "subscribeChannelKey (sub ''activeAssetData'' ''0xabc'' ''BTC'') = ''activeAssetData-0xabc-BTC'' \<and>
   dispatchKey \<lparr>Channel = ''activeAssetData'',
                Data = JObj [(''coin'', JStr ''BTC''), (''user'', JStr ''0xabc'')]\<rparr>
     = ''activeAssetData-BTC-0xabc'' \<and>
   processMessage (subscribed connected_api (sub ''activeAssetData'' ''0xabc'' ''BTC'') 7)
       [''activeAssetData-0xabc-BTC'']
       (feed ''activeAssetData'' (JObj [(''coin'', JStr ''BTC''), (''user'', JStr ''0xabc'')]))
     = Returns (subscribed connected_api (sub ''activeAssetData'' ''0xabc'' ''BTC'') 7) \<and>
   invoked (subscribed connected_api (sub ''activeAssetData'' ''0xabc'' ''BTC'') 7) = []"
proof -
  let ?s = "sub ''activeAssetData'' ''0xabc'' ''BTC''"
  let ?a = "subscribed connected_api ?s 7"
  let ?d = "JObj [(''coin'', JStr ''BTC''), (''user'', JStr ''0xabc'')]"
  let ?r = "\<lparr>Channel = ''activeAssetData'', Data = ?d\<rparr>"
  have f: "Type ?s = ''activeAssetData''" "User ?s = ''0xabc''" "Coin ?s = ''BTC''"
    by (simp_all add: sub_def)
  have k: "subscribeChannelKey ?s = ''activeAssetData-0xabc-BTC''"
    by (simp add: sub_keys)
  have p: "processMessage ?a [''activeAssetData-0xabc-BTC''] (feed ''activeAssetData'' ?d) = Returns ?a"
    by (simp add: subscribed_connected_api sub_keys processMessage_def unmarshal_feed
          dispatchFeed_def dispatchKey_def sprintf_dash_def)
  have "dispatchKey ?r = Type ?s @ ''-'' @ Coin ?s @ ''-'' @ User ?s \<and>
        invoked ?a = invoked ?a @
           (if Type ?s = ''post'' \<or> Type ?s = ''subscriptionResponse'' then []
            else case handlers connected_api (dispatchKey ?r) of
                   None \<Rightarrow> []
                 | Some h \<Rightarrow> [(h, RawData (Data ?r))])"
    by (rule C8_subscribe_order_key_missed
          [OF _ _ _ _ subscribed_connected_api(3) unmarshal_feed _ _ _ _ p,
           of "[(''coin'', JStr ''BTC''), (''user'', JStr ''0xabc'')]"])
       (simp_all add: f k)
  then have "dispatchKey ?r = ''activeAssetData-BTC-0xabc''"
    by (simp add: f)
  with k p show ?thesis by (simp add: subscribed_connected_api)
qed

text \<open>Claim C8 as stated fails in two ways: when user and coin are the same string the
  two keys coincide, and on the order-updates topic the prefix scan finds the handler.\<close>

theorem C8_counterexample:
  "processMessage (subscribed connected_api (sub ''activeAssetData'' ''a'' ''a'') 7)
       [''activeAssetData-a-a'']
       (feed ''activeAssetData'' (JObj [(''coin'', JStr ''a''), (''user'', JStr ''a'')]))
     = Returns (invoke (subscribed connected_api (sub ''activeAssetData'' ''a'' ''a'') 7) 7
                  (RawData (JObj [(''coin'', JStr ''a''), (''user'', JStr ''a'')]))) \<and>
   processMessage (subscribed connected_api (sub ''orderUpdates'' ''0xabc'' ''BTC'') 7)
       [''orderUpdates-0xabc-BTC'']
       (feed ''orderUpdates'' (JObj [(''coin'', JStr ''BTC''), (''user'', JStr ''0xabc'')]))
     = Returns (invoke (subscribed connected_api (sub ''orderUpdates'' ''0xabc'' ''BTC'') 7) 7
                  (OrdersOf (JObj [(''coin'', JStr ''BTC''), (''user'', JStr ''0xabc'')])))"
  by (simp add: subscribed_connected_api sub_keys processMessage_def unmarshal_feed
        dispatchFeed_def dispatchKey_def sprintf_dash_def prefixMatches_def prefixToMatch_def)

subsection \<open>Pending requests\<close>

text \<open>
  Claim C1 says that \<^verbatim>\<open>Disconnect\<close> resolves every pending \<^verbatim>\<open>Post\<close> with a cancellation
  error. The code empties the table and closes each pending channel, and the blocked
  caller then receives the zero value of the closed channel: \<^verbatim>\<open>Post\<close> returns a nil
  payload and a nil error.
\<close>

theorem C1_disconnect_pending_post:
  assumes "connected api"
      and "Disconnect api ids closeFrame closeConn = Returns (e, api')"
      and "set ids = dom (postHandlers api)"
      and "postHandlers api reqId = Some ch"
      and "heap api ch = Some c" and "buf c = []"
  shows "postHandlers api' = Map.empty \<and>
         (\<exists>c'. heap api' ch = Some c' \<and> is_closed c' \<and> buf c' = []) \<and>
         (\<exists>api''. Post_select api' reqId ch False preferTimer = Some ((go_nil, None), api''))"
proof -
  let ?api0 = "api\<lparr>doneClosed := True, handlers := Map.empty\<rparr>"
  from assms(1,2) obtain api1 where
    cl: "closePostHandlers ?api0 ids = Returns api1" and
    eq: "postHandlers api' = postHandlers api1 \<and> heap api' = heap api1"
    by (auto simp: Disconnect_def Let_def split: if_splits option.splits outcome.splits)
  have t: "postHandlers api' = Map.empty"
  proof
    fix i
    show "postHandlers api' i = Map.empty i"
      using closePostHandlers_table [OF cl, of i] assms(3) eq by (auto simp: dom_def)
  qed
  have "reqId \<in> set ids" using assms(3,4) by auto
  from closePostHandlers_closes [OF cl this] assms(4)
  obtain c1 where c1: "heap api1 ch = Some c1" "is_closed c1" by auto
  from closePostHandlers_heap [OF cl, of ch c] assms(5) c1
  have b: "buf c1 = buf c" by auto
  have h: "heap api' ch = Some c1" using c1 eq by simp
  have "\<exists>api''. Post_select api' reqId ch False preferTimer = Some ((go_nil, None), api'')"
    using h c1(2) b assms(6)
    by (simp add: Post_select_def chan_ready_def chan_recv_def go_nil_def Let_def)
  with t h c1(2) b assms(6) show ?thesis by simp
qed

theorem C1_disconnect_pending_post_witness:
  "Post_send connected_api ''info'' JNull (Inr 1) None = Returns (Inr (1, 0), posted_api) \<and>
   (\<exists>api'. Disconnect posted_api [1] None None = Returns (None, api') \<and>
           postHandlers api' = Map.empty \<and>
           (\<exists>api''. Post_select api' 1 0 False False = Some ((go_nil, None), api'')))"
proof -
  have "\<exists>api'. Disconnect posted_api [1] None None = Returns (None, api')"
    by (simp add: Disconnect_def posted_api_fields chan_close_def make_chan_def)
  then obtain api' where d: "Disconnect posted_api [1] None None = Returns (None, api')" ..
  have "postHandlers api' = Map.empty \<and>
         (\<exists>c'. heap api' 0 = Some c' \<and> is_closed c' \<and> buf c' = []) \<and>
         (\<exists>api''. Post_select api' 1 0 False False = Some ((go_nil, None), api''))"
    by (rule C1_disconnect_pending_post [OF _ d, where c = make_chan])
       (simp_all add: posted_api_fields make_chan_def)
  with d posted_api_fields(1) show ?thesis by blast
qed

text \<open>
  Claim C2, as amended. A \<^verbatim>\<open>Post\<close> whose request was sent and whose response channel has
  received nothing and has not been closed (by \<^verbatim>\<open>Disconnect\<close>) stays blocked while less
  than 15 seconds have passed and returns the request-timeout error once the 15 seconds
  are over; its table entry is deleted on return, and a post response for that id that
  arrives afterwards leaves the state as it is.
\<close>

theorem C2_post_timeout:
  assumes "heap api ch = Some c" and "buf c = []" and "\<not> is_closed c"
      and "index_map obj ''channel'' = JStr ''post''"
      and "index_map obj ''data'' = JObj data"
      and "index_map data ''id'' = JNum x" and "go_int x = reqId"
  shows "(elapsed < 15 * Second \<longrightarrow>
            Post_select api reqId ch (timeAfterFired elapsed) preferTimer = None) \<and>
         (15 * Second \<le> elapsed \<longrightarrow>
            Post_select api reqId ch (timeAfterFired elapsed) preferTimer =
              Some ((go_nil, Some (Errorf ''request timeout'')),
                    api\<lparr>postHandlers := (postHandlers api)(reqId := None)\<rparr>)) \<and>
         processMessage (api\<lparr>postHandlers := (postHandlers api)(reqId := None)\<rparr>) keys (Some (JObj obj))
           = Returns (api\<lparr>postHandlers := (postHandlers api)(reqId := None)\<rparr>) \<and>
         15 * Second = 15000000000"
proof -
  have 1: "Post_select api reqId ch False preferTimer = None"
    using assms(1-3) by (simp add: Post_select_def chan_ready_def Let_def)
  have 2: "Post_select api reqId ch True preferTimer =
           Some ((go_nil, Some (Errorf ''request timeout'')),
                 api\<lparr>postHandlers := (postHandlers api)(reqId := None)\<rparr>)"
    using assms(1-3) by (simp add: Post_select_def chan_ready_def Let_def)
  have u: "unmarshalWsResponse (Some (JObj obj)) = Some \<lparr>Channel = ''post'', Data = JObj data\<rparr>"
    using assms(4,5) by (simp add: unmarshalWsResponse_def del: index_map.simps)
  have 3: "processPost (api\<lparr>postHandlers := (postHandlers api)(reqId := None)\<rparr>) obj
             = Returns (api\<lparr>postHandlers := (postHandlers api)(reqId := None)\<rparr>)"
    using assms(5-7) by (simp add: processPost_def Let_def del: index_map.simps split: option.splits)
  from 1 2 3 u show ?thesis
    by (simp add: processMessage_def timeAfterFired_def Second_def del: index_map.simps)
qed

theorem C2_post_timeout_witness:
  "Post_send connected_api ''info'' JNull (Inr 1) None = Returns (Inr (1, 0), posted_api) \<and>
   Post_select posted_api 1 0 (timeAfterFired (14 * Second)) False = None \<and>
   Post_select posted_api 1 0 (timeAfterFired (15 * Second)) False =
     Some ((go_nil, Some (Errorf ''request timeout'')), posted_api\<lparr>postHandlers := Map.empty\<rparr>) \<and>
   processMessage (posted_api\<lparr>postHandlers := Map.empty\<rparr>) []
       (Some (JObj [(''channel'', JStr ''post''),
                    (''data'', JObj [(''id'', JNum 1),
                                     (''response'', JObj [(''type'', JStr ''info''),
                                                          (''payload'', JStr ''late'')])])]))
     = Returns (posted_api\<lparr>postHandlers := Map.empty\<rparr>)"
proof -
  let ?obj = "[(''channel'', JStr ''post''),
          (''data'', JObj [(''id'', JNum 1),
                           (''response'', JObj [(''type'', JStr ''info''),
                                                (''payload'', JStr ''late'')])])]"
  let ?data = "[(''id'', JNum 1),
          (''response'', JObj [(''type'', JStr ''info''), (''payload'', JStr ''late'')])]"
  have e: "(postHandlers posted_api)(1 := None) = Map.empty"
    by (simp add: posted_api_fields)
  have g: "go_int 1 = 1" by (simp add: go_int_def)
  have s: "14 * Second < 15 * Second" "15 * Second \<le> 15 * Second" by (simp_all add: Second_def)
  have a: "Post_select posted_api 1 0 (timeAfterFired (14 * Second)) False = None"
    using C2_post_timeout [of posted_api 0 make_chan ?obj ?data 1 1 "14 * Second" False "[]"] s
    by (simp add: posted_api_fields(2-) make_chan_def g)
  have b: "Post_select posted_api 1 0 (timeAfterFired (15 * Second)) False =
     Some ((go_nil, Some (Errorf ''request timeout'')), posted_api\<lparr>postHandlers := Map.empty\<rparr>) \<and>
   processMessage (posted_api\<lparr>postHandlers := Map.empty\<rparr>) [] (Some (JObj ?obj))
     = Returns (posted_api\<lparr>postHandlers := Map.empty\<rparr>)"
    using C2_post_timeout [of posted_api 0 make_chan ?obj ?data 1 1 "15 * Second" False "[]"] s
    by (simp add: posted_api_fields(2-) make_chan_def e g)
  from posted_api_fields(1) a b show ?thesis by (intro conjI) simp_all
qed

text \<open>Claim C2 as stated fails: a \<^verbatim>\<open>Post\<close> that has received no response and whose channel
  \<^verbatim>\<open>Disconnect\<close> has closed returns a nil payload and a nil error, before the timer and
  (when Go picks the receive case) after it, and never the request-timeout error.\<close>

theorem C2_counterexample:
  "Post_send connected_api ''info'' JNull (Inr 1) None = Returns (Inr (1, 0), posted_api) \<and>
   Disconnect posted_api [1] None None = Returns (None, cancelled_api) \<and>
   heap cancelled_api 0 = Some \<lparr>buf = [], is_closed = True\<rparr> \<and>
   map_option fst (Post_select cancelled_api 1 0 (timeAfterFired (5 * Second)) False)
     = Some (go_nil, None) \<and>
   map_option fst (Post_select cancelled_api 1 0 (timeAfterFired (15 * Second)) False)
     = Some (go_nil, None)"
proof -
  have "map_option fst (Post_select cancelled_api 1 0 b False) = Some (go_nil, None)" for b
    by (simp add: Post_select_def cancelled_api_fields chan_ready_def chan_recv_def go_nil_def Let_def)
  with posted_api_fields(1) cancelled_api_fields(1) show ?thesis
    by (simp add: cancelled_api_fields(3))
qed

end
